theory Spec2Isabelle
  imports
    Main
    "HOL-Library.Product_Lexorder"
    "HOL-Library.Sublist"
    "HOL-Library.Multiset"
begin

section \<open>Data model\<close>

text \<open>
  The views of \<^verbatim>\<open>aerofacil/views.py\<close> work on three models, \<^verbatim>\<open>Trip\<close>, \<^verbatim>\<open>Booking\<close> and
  \<^verbatim>\<open>Aircraft\<close>, which are declared in \<^verbatim>\<open>models.py\<close>. The records below carry the fields the
  views read and write. A user is identified by its key; a foreign key is the key of the row
  it points to. Field names shared by two models (\<^verbatim>\<open>pk\<close>, \<^verbatim>\<open>owner\<close>) are written qualified.

  A calendar date is (year, month, day); a point in time is a date and the seconds since
  midnight, in the active time zone, ordered lexicographically.
\<close>

type_synonym user = nat
type_synonym date = "nat \<times> nat \<times> nat"
type_synonym datetime = "date \<times> nat"

record Aircraft =
  pk :: nat
  owner :: user

record Booking =
  pk :: nat
  trip :: nat
  passenger :: user
  seats_requested :: int
  message_to_owner :: string

record Trip =
  pk :: nat
  owner :: user
  aircraft :: nat
  origin :: string
  destination :: string
  departure_time :: datetime
  arrival_time :: datetime
  available_seats :: int
  description :: string
  status :: string

text \<open>The tables behind \<^verbatim>\<open>Trip.objects\<close>, \<^verbatim>\<open>Booking.objects\<close> and \<^verbatim>\<open>Aircraft.objects\<close>.\<close>

record DB =
  Trip_objects :: "Trip list"
  Booking_objects :: "Booking list"
  Aircraft_objects :: "Aircraft list"

section \<open>Requests, responses, exceptions\<close>

datatype http_method = Get | Post

text \<open>\<open>user = None\<close> is the anonymous user.\<close>

record request =
  user :: "user option"
  http_method :: http_method

datatype error = Http404 | PermissionDenied | ValidationError

datatype url = trip_detail nat | dashboard | login

datatype response = Render string | Redirect url

datatype level = ERROR | WARNING | SUCCESS

text \<open>
  The six message literals of the file, in the order of their lines
  (88, 93, 98, 136, 154 and 171).
\<close>

datatype message_text =
  own_trip | already_interested | interest_registered
  | trip_announced | trip_updated | trip_removed

text \<open>
  What a handler that returns leaves behind: the response, the messages it queued and the
  database. A handler that raises returns \<open>Inl\<close> of the exception, and the database stays as
  it was, since no handler writes before it raises.
\<close>

record outcome =
  response :: response
  messages :: "(level \<times> message_text) list"
  database :: DB

definition database_after :: "DB \<Rightarrow> error + outcome \<Rightarrow> DB" where
  "database_after db r = (case r of Inl e \<Rightarrow> db | Inr out \<Rightarrow> database out)"

section \<open>Framework behaviour the views rely on\<close>

text \<open>\<^verbatim>\<open>get_object_or_404(Trip, pk=k)\<close> and \<^verbatim>\<open>self.get_object()\<close>.\<close>

definition get_object_or_404 :: "Trip list \<Rightarrow> nat \<Rightarrow> error + Trip" where
  "get_object_or_404 objects k =
     (case find (\<lambda>t. Trip.pk t = k) objects of None \<Rightarrow> Inl Http404 | Some t \<Rightarrow> Inr t)"

text \<open>
  \<^verbatim>\<open>LoginRequiredMixin\<close>: an anonymous request is redirected to the login page before the view
  runs. \<^verbatim>\<open>UserPassesTestMixin\<close>: the view runs only if \<^verbatim>\<open>test_func\<close> returns true; for a
  logged-in user a false test raises \<^verbatim>\<open>PermissionDenied\<close>.
\<close>

definition LoginRequiredMixin ::
  "DB \<Rightarrow> request \<Rightarrow> (user \<Rightarrow> error + outcome) \<Rightarrow> error + outcome" where
  "LoginRequiredMixin db request view =
     (case user request of
        None \<Rightarrow> Inr \<lparr>response = Redirect login, messages = [], database = db\<rparr>
      | Some u \<Rightarrow> view u)"

definition UserPassesTestMixin :: "error + bool \<Rightarrow> error + outcome \<Rightarrow> error + outcome" where
  "UserPassesTestMixin test view =
     (case test of
        Inl e \<Rightarrow> Inl e
      | Inr passed \<Rightarrow> if passed then view else Inl PermissionDenied)"

text \<open>The key the database gives a new row.\<close>

definition next_pk :: "nat list \<Rightarrow> nat" where
  "next_pk pks = Suc (fold max pks 0)"

text \<open>
  \<^verbatim>\<open>icontains\<close>: the value occurs in the field as a substring, letter case ignored.
\<close>

definition lower :: "char \<Rightarrow> char" where
  "lower c =
     (case map_of (zip ''ABCDEFGHIJKLMNOPQRSTUVWXYZ'' ''abcdefghijklmnopqrstuvwxyz'') c of
        None \<Rightarrow> c
      | Some l \<Rightarrow> l)"

definition icontains :: "string \<Rightarrow> string \<Rightarrow> bool" where
  "icontains field val = sublist (map lower val) (map lower field)"

text \<open>
  The paginator of \<^verbatim>\<open>ListView\<close>, with the page size the view sets. Pages are numbered from
  1; an empty list still has its first page; a page out of range is \<^verbatim>\<open>Http404\<close>.
\<close>

definition paginate_by :: nat where
  "paginate_by = 10"

definition num_pages :: "'a list \<Rightarrow> nat" where
  "num_pages object_list = (max 1 (length object_list) + paginate_by - 1) div paginate_by"

definition paginate_queryset :: "'a list \<Rightarrow> nat \<Rightarrow> error + 'a list" where
  "paginate_queryset queryset page_number =
     (if page_number < 1 \<or> num_pages queryset < page_number then Inl Http404
      else Inr (take paginate_by (drop ((page_number - 1) * paginate_by) queryset)))"

text \<open>
  A concrete reading of a date for the examples: \<^verbatim>\<open>YYYY-MM-DD\<close>, month and day of one or two
  digits, a day that exists in the calendar.
\<close>

definition digit :: "char \<Rightarrow> nat option" where
  "digit c = map_of (zip ''0123456789'' [0, 1, 2, 3, 4, 5, 6, 7, 8, 9]) c"

fun number :: "nat \<Rightarrow> string \<Rightarrow> nat option" where
  "number acc [] = Some acc"
| "number acc (c # cs) =
     (case digit c of None \<Rightarrow> None | Some d \<Rightarrow> number (10 * acc + d) cs)"

definition days_in_month :: "nat \<Rightarrow> nat \<Rightarrow> nat" where
  "days_in_month y m =
     (if m = 2 then (if y mod 4 = 0 \<and> (y mod 100 \<noteq> 0 \<or> y mod 400 = 0) then 29 else 28)
      else if m \<in> {4, 6, 9, 11} then 30 else 31)"

definition parse_date :: "string \<Rightarrow> date option" where
  "parse_date s =
     (let y = takeWhile (\<lambda>c. c \<noteq> CHR ''-'') s;
          r = drop (Suc (length y)) s;
          m = takeWhile (\<lambda>c. c \<noteq> CHR ''-'') r;
          d = drop (Suc (length m)) r
      in if length y = 4 \<and> length m \<in> {1, 2} \<and> length d \<in> {1, 2}
            \<and> length s = length y + length m + length d + 2
         then (case (number 0 y, number 0 m, number 0 d) of
                 (Some yy, Some mm, Some dd) \<Rightarrow>
                   if 1 \<le> yy \<and> 1 \<le> mm \<and> mm \<le> 12 \<and> 1 \<le> dd \<and> dd \<le> days_in_month yy mm
                   then Some (yy, mm, dd) else None
               | _ \<Rightarrow> None)
         else None)"

section \<open>Public views\<close>

text \<open>
  \<^verbatim>\<open>HomePageView.get_context_data\<close>: the value of \<^verbatim>\<open>context['upcoming_trips']\<close>.
  \<^verbatim>\<open>order_by\<close> is a stable sort on the key.
\<close>

definition HomePageView_get_context_data :: "datetime \<Rightarrow> DB \<Rightarrow> Trip list" where
  "HomePageView_get_context_data now db =
     take 5 (sort_key departure_time
       (filter (\<lambda>t. status t = ''OPEN'' \<and> now \<le> departure_time t) (Trip_objects db)))"

text \<open>
  \<^verbatim>\<open>TripListView.get_queryset\<close>. \<open>GET\<close> is the query string as a dictionary, so \<open>GET k\<close> is
  \<^verbatim>\<open>request.GET.get(k)\<close>. \<^verbatim>\<open>if origin:\<close> holds when the parameter is present and not empty.
  The \<^verbatim>\<open>__date\<close> lookup converts its value to a date first; \<open>to_date\<close> is that conversion,
  \<open>None\<close> where it rejects the value, and then the lookup raises \<^verbatim>\<open>ValidationError\<close>.
\<close>

definition TripListView_get_queryset ::
  "(string \<Rightarrow> date option) \<Rightarrow> datetime \<Rightarrow> (string \<rightharpoonup> string) \<Rightarrow> DB \<Rightarrow> error + Trip list" where
  "TripListView_get_queryset to_date now GET db =
     (let queryset = filter (\<lambda>t. status t = ''OPEN'' \<and> now \<le> departure_time t) (Trip_objects db);
          queryset =
            (case GET ''origin'' of
               None \<Rightarrow> queryset
             | Some v \<Rightarrow> if v = [] then queryset
                         else filter (\<lambda>t. icontains (origin t) v) queryset);
          queryset =
            (case GET ''destination'' of
               None \<Rightarrow> queryset
             | Some v \<Rightarrow> if v = [] then queryset
                         else filter (\<lambda>t. icontains (destination t) v) queryset)
      in case GET ''date'' of
           None \<Rightarrow> Inr (sort_key departure_time queryset)
         | Some v \<Rightarrow>
             if v = [] then Inr (sort_key departure_time queryset)
             else (case to_date v of
                     None \<Rightarrow> Inl ValidationError
                   | Some d \<Rightarrow>
                       Inr (sort_key departure_time
                              (filter (\<lambda>t. fst (departure_time t) = d) queryset))))"

section \<open>Booking\<close>

text \<open>
  A submitted form is represented by \<^verbatim>\<open>form.instance\<close>: the model row the form has built
  from the submitted fields. Whether the submitted fields pass the validation of the model's
  field declarations is decided in \<^verbatim>\<open>models.py\<close>; the views take that decision as the
  predicate \<open>clean\<close>.

  \<^verbatim>\<open>CreateBookingView.form_valid\<close>, for the logged-in user \<open>u\<close>. \<^verbatim>\<open>super().form_valid(form)\<close>
  saves the instance and redirects to \<^verbatim>\<open>get_success_url()\<close>.
\<close>

definition CreateBookingView_form_valid ::
  "DB \<Rightarrow> user \<Rightarrow> nat \<Rightarrow> Booking \<Rightarrow> error + outcome" where
  "CreateBookingView_form_valid db u trip_pk instance =
     (case get_object_or_404 (Trip_objects db) trip_pk of
        Inl e \<Rightarrow> Inl e
      | Inr t \<Rightarrow>
          if Trip.owner t = u then
            Inr \<lparr>response = Redirect (trip_detail (Trip.pk t)),
                 messages = [(ERROR, own_trip)], database = db\<rparr>
          else if filter (\<lambda>b. Booking.trip b = Trip.pk t \<and> passenger b = u)
                    (Booking_objects db) \<noteq> [] then
            Inr \<lparr>response = Redirect (trip_detail (Trip.pk t)),
                 messages = [(WARNING, already_interested)], database = db\<rparr>
          else
            Inr \<lparr>response = Redirect (trip_detail trip_pk),
                 messages = [(SUCCESS, interest_registered)],
                 database = db\<lparr>Booking_objects := Booking_objects db @
                   [instance\<lparr>Booking.pk := next_pk (map Booking.pk (Booking_objects db)),
                             passenger := u, trip := Trip.pk t\<rparr>]\<rparr>\<rparr>)"

text \<open>
  The whole request: the login check of the mixin, then \<^verbatim>\<open>CreateView\<close>, which shows the form
  on GET and on a POST that does not validate, and calls \<^verbatim>\<open>form_valid\<close> otherwise.
\<close>

definition CreateBookingView ::
  "(Booking \<Rightarrow> bool) \<Rightarrow> DB \<Rightarrow> request \<Rightarrow> nat \<Rightarrow> Booking \<Rightarrow> error + outcome" where
  "CreateBookingView clean db request trip_pk instance =
     LoginRequiredMixin db request (\<lambda>u.
       case http_method request of
         Get \<Rightarrow> Inr \<lparr>response = Render ''create_booking.html'', messages = [], database = db\<rparr>
       | Post \<Rightarrow>
           if clean instance then CreateBookingView_form_valid db u trip_pk instance
           else Inr \<lparr>response = Render ''create_booking.html'', messages = [],
                     database = db\<rparr>)"

text \<open>
  The database after a sequence of booking requests by \<open>u\<close> on the trip \<open>trip_pk\<close>, each
  handled to its end before the next one starts.
\<close>

fun booking_attempts ::
  "(Booking \<Rightarrow> bool) \<Rightarrow> user \<Rightarrow> nat \<Rightarrow> DB \<Rightarrow> (http_method \<times> Booking) list \<Rightarrow> DB" where
  "booking_attempts clean u trip_pk db [] = db"
| "booking_attempts clean u trip_pk db ((m, instance) # rest) =
     booking_attempts clean u trip_pk
       (database_after db
          (CreateBookingView clean db \<lparr>user = Some u, http_method = m\<rparr> trip_pk instance))
       rest"

definition bookings_of :: "DB \<Rightarrow> nat \<Rightarrow> user \<Rightarrow> Booking list" where
  "bookings_of db trip_pk u =
     filter (\<lambda>b. Booking.trip b = trip_pk \<and> passenger b = u) (Booking_objects db)"

section \<open>Owner views\<close>

text \<open>
  The \<^verbatim>\<open>aircraft\<close> field of a trip form is a choice among the rows of a queryset: a form whose
  aircraft is not the key of one of them does not validate.
\<close>

definition is_valid :: "(Trip \<Rightarrow> bool) \<Rightarrow> Aircraft list \<Rightarrow> Trip \<Rightarrow> bool" where
  "is_valid clean aircraft_queryset instance \<longleftrightarrow>
     aircraft instance \<in> set (map Aircraft.pk aircraft_queryset) \<and> clean instance"

text \<open>
  \<^verbatim>\<open>TripCreateView.get_form\<close>: the queryset it gives the \<^verbatim>\<open>aircraft\<close> field.
\<close>

definition TripCreateView_get_form :: "DB \<Rightarrow> user \<Rightarrow> Aircraft list" where
  "TripCreateView_get_form db u = filter (\<lambda>a. Aircraft.owner a = u) (Aircraft_objects db)"

definition TripCreateView_form_valid :: "DB \<Rightarrow> user \<Rightarrow> Trip \<Rightarrow> error + outcome" where
  "TripCreateView_form_valid db u instance =
     Inr \<lparr>response = Redirect dashboard, messages = [(SUCCESS, trip_announced)],
          database = db\<lparr>Trip_objects := Trip_objects db @
            [instance\<lparr>Trip.owner := u,
                      Trip.pk := next_pk (map Trip.pk (Trip_objects db))\<rparr>]\<rparr>\<rparr>"

definition TripCreateView ::
  "(Trip \<Rightarrow> bool) \<Rightarrow> DB \<Rightarrow> request \<Rightarrow> Trip \<Rightarrow> error + outcome" where
  "TripCreateView clean db request instance =
     LoginRequiredMixin db request (\<lambda>u.
       case http_method request of
         Get \<Rightarrow> Inr \<lparr>response = Render ''trip_form.html'', messages = [], database = db\<rparr>
       | Post \<Rightarrow>
           if is_valid clean (TripCreateView_get_form db u) instance
           then TripCreateView_form_valid db u instance
           else Inr \<lparr>response = Render ''trip_form.html'', messages = [], database = db\<rparr>)"

text \<open>
  \<^verbatim>\<open>TripUpdateView\<close>. The form has the eight fields of \<^verbatim>\<open>fields\<close>; saving it writes them,
  taken from \<open>data\<close>, into the stored row and leaves the row's key and owner. The view does
  not override \<^verbatim>\<open>get_form\<close>, so the \<^verbatim>\<open>aircraft\<close> field keeps the queryset of the model field:
  every aircraft.
\<close>

definition TripUpdateView_test_func :: "DB \<Rightarrow> user \<Rightarrow> nat \<Rightarrow> error + bool" where
  "TripUpdateView_test_func db u k =
     (case get_object_or_404 (Trip_objects db) k of
        Inl e \<Rightarrow> Inl e
      | Inr t \<Rightarrow> Inr (u = Trip.owner t))"

definition TripUpdateView_form_valid :: "DB \<Rightarrow> Trip \<Rightarrow> Trip \<Rightarrow> error + outcome" where
  "TripUpdateView_form_valid db object data =
     Inr \<lparr>response = Redirect dashboard, messages = [(SUCCESS, trip_updated)],
          database = db\<lparr>Trip_objects :=
            map (\<lambda>t. if Trip.pk t = Trip.pk object
                      then object\<lparr>aircraft := aircraft data, origin := origin data,
                                  destination := destination data,
                                  departure_time := departure_time data,
                                  arrival_time := arrival_time data,
                                  available_seats := available_seats data,
                                  description := description data, status := status data\<rparr>
                      else t)
              (Trip_objects db)\<rparr>\<rparr>"

definition TripUpdateView ::
  "(Trip \<Rightarrow> bool) \<Rightarrow> DB \<Rightarrow> request \<Rightarrow> nat \<Rightarrow> Trip \<Rightarrow> error + outcome" where
  "TripUpdateView clean db request k data =
     LoginRequiredMixin db request (\<lambda>u.
       UserPassesTestMixin (TripUpdateView_test_func db u k)
         (case get_object_or_404 (Trip_objects db) k of
            Inl e \<Rightarrow> Inl e
          | Inr object \<Rightarrow>
              (case http_method request of
                 Get \<Rightarrow> Inr \<lparr>response = Render ''trip_form.html'', messages = [],
                             database = db\<rparr>
               | Post \<Rightarrow>
                   if is_valid clean (Aircraft_objects db) data
                   then TripUpdateView_form_valid db object data
                   else Inr \<lparr>response = Render ''trip_form.html'', messages = [],
                             database = db\<rparr>)))"

text \<open>
  \<^verbatim>\<open>TripDeleteView\<close>. GET shows the confirmation page, POST deletes. What deleting a trip does
  to the bookings that point to it is the \<^verbatim>\<open>on_delete\<close> rule of the foreign key, declared in
  \<^verbatim>\<open>models.py\<close>; the view takes it as \<open>on_delete\<close>.
\<close>

definition TripDeleteView_test_func :: "DB \<Rightarrow> user \<Rightarrow> nat \<Rightarrow> error + bool" where
  "TripDeleteView_test_func db u k =
     (case get_object_or_404 (Trip_objects db) k of
        Inl e \<Rightarrow> Inl e
      | Inr t \<Rightarrow> Inr (u = Trip.owner t))"

definition TripDeleteView_form_valid ::
  "(nat \<Rightarrow> Booking list \<Rightarrow> Booking list) \<Rightarrow> DB \<Rightarrow> Trip \<Rightarrow> error + outcome" where
  "TripDeleteView_form_valid on_delete db object =
     Inr \<lparr>response = Redirect dashboard, messages = [(SUCCESS, trip_removed)],
          database = db\<lparr>Trip_objects :=
                          filter (\<lambda>t. Trip.pk t \<noteq> Trip.pk object) (Trip_objects db),
                        Booking_objects := on_delete (Trip.pk object) (Booking_objects db)\<rparr>\<rparr>"

definition TripDeleteView ::
  "(nat \<Rightarrow> Booking list \<Rightarrow> Booking list) \<Rightarrow> DB \<Rightarrow> request \<Rightarrow> nat \<Rightarrow> error + outcome" where
  "TripDeleteView on_delete db request k =
     LoginRequiredMixin db request (\<lambda>u.
       UserPassesTestMixin (TripDeleteView_test_func db u k)
         (case get_object_or_404 (Trip_objects db) k of
            Inl e \<Rightarrow> Inl e
          | Inr object \<Rightarrow>
              (case http_method request of
                 Get \<Rightarrow> Inr \<lparr>response = Render ''trip_confirm_delete.html'', messages = [],
                             database = db\<rparr>
               | Post \<Rightarrow> TripDeleteView_form_valid on_delete db object)))"

section \<open>Search as the specification words it\<close>

text \<open>
  \<^verbatim>\<open>request.GET\<close> for a query string given as its list of pairs; \<^verbatim>\<open>get\<close> returns the last
  value of a repeated key.
\<close>

definition QueryDict :: "(string \<times> string) list \<Rightarrow> (string \<rightharpoonup> string)" where
  "QueryDict pairs = map_of (rev pairs)"

text \<open>
  The trips a search should return: open, not yet departed, and matching every parameter
  that is supplied. An empty date counts as not supplied.
\<close>

definition search_matches ::
  "(string \<Rightarrow> date option) \<Rightarrow> datetime \<Rightarrow> (string \<rightharpoonup> string) \<Rightarrow> Trip \<Rightarrow> bool" where
  "search_matches to_date now GET t \<longleftrightarrow>
     status t = ''OPEN'' \<and> now \<le> departure_time t
     \<and> (case GET ''origin'' of None \<Rightarrow> True | Some v \<Rightarrow> icontains (origin t) v)
     \<and> (case GET ''destination'' of None \<Rightarrow> True | Some v \<Rightarrow> icontains (destination t) v)
     \<and> (case GET ''date'' of
          None \<Rightarrow> True
        | Some v \<Rightarrow> v = [] \<or> to_date v = Some (fst (departure_time t)))"

text \<open>The date parameter is supplied, not empty, and not a date.\<close>

definition date_rejected :: "(string \<Rightarrow> date option) \<Rightarrow> (string \<rightharpoonup> string) \<Rightarrow> bool" where
  "date_rejected to_date GET \<longleftrightarrow>
     (case GET ''date'' of None \<Rightarrow> False | Some v \<Rightarrow> v \<noteq> [] \<and> to_date v = None)"

section \<open>Example data\<close>

definition demo_trip ::
  "nat \<Rightarrow> user \<Rightarrow> nat \<Rightarrow> string \<Rightarrow> string \<Rightarrow> datetime \<Rightarrow> string \<Rightarrow> Trip" where
  "demo_trip k u a orig dest dep st =
     \<lparr>Trip.pk = k, owner = u, aircraft = a, origin = orig, destination = dest,
      departure_time = dep, arrival_time = dep, available_seats = 4, description = [],
      status = st\<rparr>"

definition demo_closed :: Trip where
  "demo_closed = demo_trip 8 1 1 ''Natal'' ''Rio'' ((2024, 5, 1), 0) ''CLOSED''"

definition demo_departed :: Trip where
  "demo_departed = demo_trip 9 1 1 ''Natal'' ''Rio'' ((2024, 4, 1), 0) ''OPEN''"

definition demo_db :: DB where
  "demo_db =
     \<lparr>Trip_objects =
        [demo_trip 1 1 1 ''Natal'' ''Recife'' ((2024, 5, 1), 36000) ''OPEN'',
         demo_trip 2 1 1 ''Natal'' ''Fortaleza'' ((2024, 5, 3), 0) ''OPEN'',
         demo_trip 3 2 2 ''Recife'' ''Natal'' ((2024, 5, 2), 0) ''OPEN'',
         demo_trip 4 2 2 ''Porto de NATAL'' ''Rio'' ((2024, 5, 1), 28800) ''OPEN'',
         demo_trip 5 1 1 ''Recife'' ''Rio'' ((2024, 5, 6), 0) ''OPEN'',
         demo_trip 6 1 1 ''Recife'' ''Rio'' ((2024, 5, 7), 0) ''OPEN'',
         demo_trip 7 1 1 ''Recife'' ''Rio'' ((2024, 5, 8), 0) ''OPEN'',
         demo_closed, demo_departed],
      Booking_objects = [],
      Aircraft_objects =
        [\<lparr>Aircraft.pk = 1, owner = 1\<rparr>, \<lparr>Aircraft.pk = 2, owner = 2\<rparr>,
         \<lparr>Aircraft.pk = 3, owner = 4\<rparr>]\<rparr>"

definition demo_now :: datetime where
  "demo_now = ((2024, 4, 15), 0)"

definition demo_query :: "string \<rightharpoonup> string" where
  "demo_query = QueryDict [(''origin'', ''Natal''), (''date'', ''2024-05-01'')]"

definition demo_bad_query :: "string \<rightharpoonup> string" where
  "demo_bad_query = QueryDict [(''date'', ''amanha'')]"

text \<open>
  A validation of the booking form and of the trip form, a submitted booking, and the rule
  \<^verbatim>\<open>on_delete=CASCADE\<close>, for the examples.
\<close>

definition demo_clean :: "Booking \<Rightarrow> bool" where
  "demo_clean b \<longleftrightarrow> 0 < seats_requested b"

definition demo_booking :: Booking where
  "demo_booking =
     \<lparr>Booking.pk = 0, trip = 0, passenger = 0, seats_requested = 2,
      message_to_owner = ''Ola''\<rparr>"

definition demo_trip_clean :: "Trip \<Rightarrow> bool" where
  "demo_trip_clean t \<longleftrightarrow> 0 < available_seats t"

definition CASCADE :: "nat \<Rightarrow> Booking list \<Rightarrow> Booking list" where
  "CASCADE k bookings = filter (\<lambda>b. Booking.trip b \<noteq> k) bookings"

text \<open>
  Two submitted trip forms of user 2, one with an aircraft of user 2 and one with an
  aircraft of user 4.
\<close>

definition demo_new_trip :: Trip where
  "demo_new_trip = demo_trip 0 0 2 ''Natal'' ''Rio'' ((2024, 6, 1), 0) ''OPEN''"

definition demo_foreign_aircraft :: Aircraft where
  "demo_foreign_aircraft = \<lparr>Aircraft.pk = 3, owner = 4\<rparr>"

definition demo_foreign_trip :: Trip where
  "demo_foreign_trip = demo_trip 0 0 3 ''Natal'' ''Rio'' ((2024, 6, 1), 0) ''OPEN''"

text \<open>
  A submitted booking that does not validate, and the example database after user 5 has
  booked trip 3.
\<close>

definition demo_invalid_booking :: Booking where
  "demo_invalid_booking = demo_booking\<lparr>seats_requested := 0\<rparr>"

definition demo_booked_db :: DB where
  "demo_booked_db =
     demo_db\<lparr>Booking_objects :=
       [demo_booking\<lparr>Booking.pk := 7, trip := 3, passenger := 5\<rparr>]\<rparr>"

section \<open>Listings\<close>

lemma icontains_empty: "icontains field []"
  by (simp add: icontains_def)

lemma optional_filter:
  "(case p of None \<Rightarrow> qs
    | Some v \<Rightarrow> if v = [] then qs else filter (\<lambda>t. icontains (f t) v) qs) =
   filter (\<lambda>t. case p of None \<Rightarrow> True | Some v \<Rightarrow> icontains (f t) v) qs"
  by (cases p) (simp_all add: icontains_empty)

lemma get_queryset_accepts:
  assumes "\<not> date_rejected to_date GET"
  shows "TripListView_get_queryset to_date now GET db =
         Inr (sort_key departure_time (filter (search_matches to_date now GET) (Trip_objects db)))"
proof -
  let ?base = "filter (\<lambda>t. status t = ''OPEN'' \<and> now \<le> departure_time t) (Trip_objects db)"
  let ?qs = "filter (\<lambda>t. case GET ''destination'' of None \<Rightarrow> True | Some v \<Rightarrow> icontains (destination t) v)
              (filter (\<lambda>t. case GET ''origin'' of None \<Rightarrow> True | Some v \<Rightarrow> icontains (origin t) v) ?base)"
  have code: "TripListView_get_queryset to_date now GET db =
     (case GET ''date'' of
        None \<Rightarrow> Inr (sort_key departure_time ?qs)
      | Some v \<Rightarrow>
          if v = [] then Inr (sort_key departure_time ?qs)
          else (case to_date v of
                  None \<Rightarrow> Inl ValidationError
                | Some d \<Rightarrow> Inr (sort_key departure_time
                                   (filter (\<lambda>t. fst (departure_time t) = d) ?qs))))"
    unfolding TripListView_get_queryset_def Let_def optional_filter ..
  show ?thesis
  proof (cases "GET ''date''")
    case None
    have "?qs = filter (search_matches to_date now GET) (Trip_objects db)"
      by (auto simp: search_matches_def None intro: filter_cong)
    then show ?thesis by (simp add: code None)
  next
    case (Some v)
    show ?thesis
    proof (cases "v = []")
      case True
      have "?qs = filter (search_matches to_date now GET) (Trip_objects db)"
        by (auto simp: search_matches_def Some True intro: filter_cong)
      then show ?thesis by (simp add: code Some True)
    next
      case False
      then obtain d where d: "to_date v = Some d"
        using assms Some by (auto simp: date_rejected_def)
      have "filter (\<lambda>t. fst (departure_time t) = d) ?qs =
            filter (search_matches to_date now GET) (Trip_objects db)"
        by (auto simp: search_matches_def Some False d intro: filter_cong)
      then show ?thesis by (simp add: code Some False d)
    qed
  qed
qed

lemma get_queryset_rejects:
  assumes "date_rejected to_date GET"
  shows "TripListView_get_queryset to_date now GET db = Inl ValidationError"
  using assms
  by (auto simp: TripListView_get_queryset_def date_rejected_def Let_def split: option.splits)

lemma page_bounds:
  assumes "paginate_queryset qs n = Inr p"
  shows "length p \<le> 10 \<and> p = take 10 (drop ((n - 1) * 10) qs)"
  using assms by (auto simp: paginate_queryset_def paginate_by_def split: if_splits)

lemma page_covers:
  assumes "i < length qs"
  shows "\<exists>p. paginate_queryset qs (Suc (i div 10)) = Inr p \<and> i mod 10 < length p
             \<and> p ! (i mod 10) = qs ! i"
proof -
  have n: "\<not> num_pages qs < Suc (i div 10)"
    using assms by (simp add: num_pages_def paginate_by_def)
  have eq: "i div 10 * 10 + i mod 10 = i" by simp
  have len: "i mod 10 < length (take 10 (drop (i div 10 * 10) qs))"
    using assms by simp arith
  have "take 10 (drop (i div 10 * 10) qs) ! (i mod 10) = qs ! i"
    using assms by (simp add: eq)
  with n len show ?thesis
    by (simp add: paginate_queryset_def paginate_by_def)
qed

lemma sorted_take_le_drop:
  assumes "sorted (map f xs)" "x \<in> set (take n xs)" "y \<in> set (drop n xs)"
  shows "f x \<le> f y"
proof -
  have "sorted (map f (take n xs) @ map f (drop n xs))"
    using assms(1) by (simp flip: map_append)
  then show ?thesis using assms(2,3) by (auto simp: sorted_append)
qed

lemma mset_minus_take: "mset xs - mset (take n xs) = mset (drop n xs)"
proof -
  have "mset xs = mset (take n xs) + mset (drop n xs)"
    by (simp flip: mset_append)
  then show ?thesis by simp
qed

text \<open>The example data, evaluated.\<close>

lemma parse_date_example: "parse_date ''2024-05-01'' = Some (2024, 5, 1)"
  by (simp add: parse_date_def digit_def days_in_month_def)

lemma parse_date_rejects_example: "parse_date ''amanha'' = None"
  by (simp add: parse_date_def digit_def days_in_month_def)

lemma demo_home:
  "HomePageView_get_context_data demo_now demo_db =
     [demo_trip 4 2 2 ''Porto de NATAL'' ''Rio'' ((2024, 5, 1), 28800) ''OPEN'',
      demo_trip 1 1 1 ''Natal'' ''Recife'' ((2024, 5, 1), 36000) ''OPEN'',
      demo_trip 3 2 2 ''Recife'' ''Natal'' ((2024, 5, 2), 0) ''OPEN'',
      demo_trip 2 1 1 ''Natal'' ''Fortaleza'' ((2024, 5, 3), 0) ''OPEN'',
      demo_trip 5 1 1 ''Recife'' ''Rio'' ((2024, 5, 6), 0) ''OPEN'']"
  by (simp add: HomePageView_get_context_data_def demo_now_def demo_db_def demo_trip_def
        demo_closed_def demo_departed_def)

lemma demo_search:
  "TripListView_get_queryset parse_date demo_now demo_query demo_db =
     Inr [demo_trip 4 2 2 ''Porto de NATAL'' ''Rio'' ((2024, 5, 1), 28800) ''OPEN'',
          demo_trip 1 1 1 ''Natal'' ''Recife'' ((2024, 5, 1), 36000) ''OPEN'']"
  by (simp add: TripListView_get_queryset_def demo_query_def QueryDict_def parse_date_example
        demo_now_def demo_db_def demo_trip_def demo_closed_def demo_departed_def
        icontains_def lower_def sublist_code)

text \<open>
  C6. The home page shows the open trips that have not departed with the earliest
  departure times, at most five of them, in ascending order of departure: the listing is
  sorted, it has five trips, or all of them when there are fewer, each of them is an open
  trip that has not departed, and every such trip that is left out departs no earlier than
  every trip shown. The view only reads the database.
\<close>

theorem home_five_soonest:
  fixes now :: datetime and db :: DB
  defines "base \<equiv> filter (\<lambda>t. status t = ''OPEN'' \<and> now \<le> departure_time t) (Trip_objects db)"
  defines "shown \<equiv> HomePageView_get_context_data now db"
  shows "sorted (map departure_time shown)
       \<and> length shown = min 5 (length base)
       \<and> mset shown \<subseteq># mset base
       \<and> (\<forall>s \<in> set shown. \<forall>t \<in># mset base - mset shown.
             departure_time s \<le> departure_time t)"
proof -
  let ?S = "sort_key departure_time base"
  have shown: "shown = take 5 ?S"
    by (simp add: shown_def base_def HomePageView_get_context_data_def)
  have srt: "sorted (map departure_time ?S)" by simp
  have 1: "sorted (map departure_time shown)"
    unfolding shown using srt by (simp add: sorted_wrt_take flip: take_map)
  have 2: "length shown = min 5 (length base)"
    unfolding shown by simp
  have "mset (take 5 ?S) \<subseteq># mset ?S"
    by (metis append_take_drop_id mset_append mset_subset_eq_add_left)
  then have 3: "mset shown \<subseteq># mset base"
    unfolding shown by simp
  have "mset base - mset shown = mset (drop 5 ?S)"
    unfolding shown using mset_minus_take [of ?S 5] by simp
  then have 4: "\<forall>s \<in> set shown. \<forall>t \<in># mset base - mset shown.
      departure_time s \<le> departure_time t"
    unfolding shown using sorted_take_le_drop [OF srt] by auto
  from 1 2 3 4 show ?thesis by blast
qed

theorem home_five_soonest_witness:
  "map Trip.pk (HomePageView_get_context_data demo_now demo_db) = [4, 1, 3, 2, 5]
   \<and> length (filter (\<lambda>t. status t = ''OPEN'' \<and> demo_now \<le> departure_time t)
        (Trip_objects demo_db)) = 7
   \<and> departure_time (demo_trip 5 1 1 ''Recife'' ''Rio'' ((2024, 5, 6), 0) ''OPEN'')
       \<le> departure_time (demo_trip 6 1 1 ''Recife'' ''Rio'' ((2024, 5, 7), 0) ''OPEN'')"
proof -
  let ?base = "filter (\<lambda>t. status t = ''OPEN'' \<and> demo_now \<le> departure_time t)
                 (Trip_objects demo_db)"
  let ?s = "demo_trip 5 1 1 ''Recife'' ''Rio'' ((2024, 5, 6), 0) ''OPEN''"
  let ?t = "demo_trip 6 1 1 ''Recife'' ''Rio'' ((2024, 5, 7), 0) ''OPEN''"
  have base: "?base =
     [demo_trip 1 1 1 ''Natal'' ''Recife'' ((2024, 5, 1), 36000) ''OPEN'',
      demo_trip 2 1 1 ''Natal'' ''Fortaleza'' ((2024, 5, 3), 0) ''OPEN'',
      demo_trip 3 2 2 ''Recife'' ''Natal'' ((2024, 5, 2), 0) ''OPEN'',
      demo_trip 4 2 2 ''Porto de NATAL'' ''Rio'' ((2024, 5, 1), 28800) ''OPEN'',
      demo_trip 5 1 1 ''Recife'' ''Rio'' ((2024, 5, 6), 0) ''OPEN'', ?t,
      demo_trip 7 1 1 ''Recife'' ''Rio'' ((2024, 5, 8), 0) ''OPEN'']"
    by (simp add: demo_now_def demo_db_def demo_trip_def demo_closed_def demo_departed_def)
  have s: "?s \<in> set (HomePageView_get_context_data demo_now demo_db)"
    by (simp add: demo_home)
  have t: "?t \<in># mset ?base - mset (HomePageView_get_context_data demo_now demo_db)"
    unfolding base demo_home by (simp add: demo_trip_def)
  have "departure_time ?s \<le> departure_time ?t"
    using home_five_soonest [of demo_now demo_db] s t by blast
  then show ?thesis
    by (simp add: demo_home base) (simp add: demo_trip_def)
qed

text \<open>
  C7. A trip that is not open, or that has departed, is on no listing: not on the home page,
  and in no search result and on none of its pages, whatever the search parameters.
\<close>

theorem closed_or_departed_never_listed:
  assumes "status T \<noteq> ''OPEN'' \<or> departure_time T < now"
  shows "T \<notin> set (HomePageView_get_context_data now db)
       \<and> (\<forall>qs. TripListView_get_queryset to_date now GET db = Inr qs \<longrightarrow>
             T \<notin> set qs \<and> (\<forall>n p. paginate_queryset qs n = Inr p \<longrightarrow> T \<notin> set p))"
proof -
  have "set (HomePageView_get_context_data now db)
          \<subseteq> set (filter (\<lambda>t. status t = ''OPEN'' \<and> now \<le> departure_time t) (Trip_objects db))"
    unfolding HomePageView_get_context_data_def
    using set_take_subset [of 5 "sort_key departure_time
      (filter (\<lambda>t. status t = ''OPEN'' \<and> now \<le> departure_time t) (Trip_objects db))"]
    by simp
  then have home: "T \<notin> set (HomePageView_get_context_data now db)"
    using assms by auto
  have search: "T \<notin> set qs \<and> (\<forall>n p. paginate_queryset qs n = Inr p \<longrightarrow> T \<notin> set p)"
    if qs: "TripListView_get_queryset to_date now GET db = Inr qs" for qs
  proof -
    have "\<not> date_rejected to_date GET"
      using qs get_queryset_rejects [of to_date GET now db] by auto
    then have "qs = sort_key departure_time
                      (filter (search_matches to_date now GET) (Trip_objects db))"
      using qs get_queryset_accepts [of to_date GET now db] by simp
    then have "T \<notin> set qs"
      using assms by (auto simp: search_matches_def)
    moreover have "set p \<subseteq> set qs" if "paginate_queryset qs n = Inr p" for n p
      using page_bounds [OF that] by (metis set_drop_subset set_take_subset subset_trans)
    ultimately show ?thesis by blast
  qed
  from home search show ?thesis by blast
qed

theorem closed_or_departed_never_listed_witness:
  "status demo_closed \<noteq> ''OPEN''
   \<and> demo_closed \<in> set (Trip_objects demo_db)
   \<and> demo_closed \<notin> set (HomePageView_get_context_data demo_now demo_db)
   \<and> (\<exists>qs. TripListView_get_queryset parse_date demo_now demo_query demo_db = Inr qs
          \<and> qs \<noteq> [] \<and> demo_closed \<notin> set qs)"
proof -
  have c: "status demo_closed \<noteq> ''OPEN''"
    by (simp add: demo_closed_def demo_trip_def)
  then have "status demo_closed \<noteq> ''OPEN'' \<or> departure_time demo_closed < demo_now"
    by simp
  from closed_or_departed_never_listed [OF this, of demo_db parse_date demo_query]
  have "demo_closed \<notin> set (HomePageView_get_context_data demo_now demo_db)"
    and "\<exists>qs. TripListView_get_queryset parse_date demo_now demo_query demo_db = Inr qs
          \<and> qs \<noteq> [] \<and> demo_closed \<notin> set qs"
    using demo_search by auto
  moreover have "demo_closed \<in> set (Trip_objects demo_db)"
    by (simp add: demo_db_def)
  ultimately show ?thesis using c by blast
qed

text \<open>
  C9. A search parameter whose value is the empty string is treated as a parameter that is
  absent: the query with \<^verbatim>\<open>origin\<close> (or \<^verbatim>\<open>destination\<close>, or \<^verbatim>\<open>date\<close>) empty gives the result
  of the query without that parameter.
\<close>

theorem empty_parameter_is_absent:
  "TripListView_get_queryset to_date now (GET(''origin'' \<mapsto> [])) db
     = TripListView_get_queryset to_date now (GET(''origin'' := None)) db
   \<and> TripListView_get_queryset to_date now (GET(''destination'' \<mapsto> [])) db
     = TripListView_get_queryset to_date now (GET(''destination'' := None)) db
   \<and> TripListView_get_queryset to_date now (GET(''date'' \<mapsto> [])) db
     = TripListView_get_queryset to_date now (GET(''date'' := None)) db"
  by (simp add: TripListView_get_queryset_def)

text \<open>
  Where the lookup accepts the date (the parameter is absent, empty, or a calendar date),
  the search returns the trips that are open, have not departed, and match each parameter
  supplied, each as often as it is stored, in ascending order of departure, cut into pages
  of ten.
\<close>

lemma search_results_for_accepted_date:
  assumes "\<not> date_rejected to_date GET"
  shows "\<exists>qs. TripListView_get_queryset to_date now GET db = Inr qs
           \<and> set qs = {t \<in> set (Trip_objects db). search_matches to_date now GET t}
           \<and> mset qs = filter_mset (search_matches to_date now GET) (mset (Trip_objects db))
           \<and> sorted (map departure_time qs)
           \<and> (\<forall>n p. paginate_queryset qs n = Inr p \<longrightarrow>
                 length p \<le> 10 \<and> p = take 10 (drop ((n - 1) * 10) qs))
           \<and> (\<forall>i < length qs. \<exists>p. paginate_queryset qs (Suc (i div 10)) = Inr p
                 \<and> i mod 10 < length p \<and> p ! (i mod 10) = qs ! i)"
proof -
  let ?qs = "sort_key departure_time (filter (search_matches to_date now GET) (Trip_objects db))"
  have 1: "TripListView_get_queryset to_date now GET db = Inr ?qs"
    using assms by (rule get_queryset_accepts)
  have 2: "set ?qs = {t \<in> set (Trip_objects db). search_matches to_date now GET t}"
    by auto
  have 3: "mset ?qs = filter_mset (search_matches to_date now GET) (mset (Trip_objects db))"
    by simp
  have 4: "sorted (map departure_time ?qs)"
    by simp
  have 5: "\<forall>n p. paginate_queryset ?qs n = Inr p \<longrightarrow>
             length p \<le> 10 \<and> p = take 10 (drop ((n - 1) * 10) ?qs)"
    using page_bounds by blast
  have 6: "\<forall>i < length ?qs. \<exists>p. paginate_queryset ?qs (Suc (i div 10)) = Inr p
             \<and> i mod 10 < length p \<and> p ! (i mod 10) = ?qs ! i"
    using page_covers by blast
  show ?thesis
    by (rule exI [of _ ?qs]) (intro conjI 1 2 3 4 5 6)
qed

text \<open>
  C5. The claim gives every combination of the search parameters a result set, as the
  origin and destination filters do for any string. The date filter does not: the view
  hands the parameter to the lookup unchecked, and for a date that is not a calendar date
  the lookup raises \<^verbatim>\<open>ValidationError\<close>, which nothing catches. Here the view is evaluated on
  \<^verbatim>\<open>date=amanha\<close>.
\<close>

theorem search_date_not_a_date_raises:
  "TripListView_get_queryset parse_date demo_now demo_bad_query demo_db = Inl ValidationError"
  by (simp add: TripListView_get_queryset_def demo_bad_query_def QueryDict_def
        parse_date_rejects_example)

section \<open>Booking\<close>

lemma get_object_or_404_found:
  assumes "get_object_or_404 objects k = Inr t"
  shows "Trip.pk t = k \<and> t \<in> set objects"
  using assms
  by (auto simp: get_object_or_404_def find_Some_iff split: option.splits)

text \<open>
  What one booking request does to the database: nothing, or, when the user has no booking
  on the trip yet, one new row for this user and this trip.
\<close>

lemma booking_request_effect:
  "database_after db (CreateBookingView clean db request k instance) = db
   \<or> (\<exists>u row. user request = Some u \<and> bookings_of db k u = []
         \<and> Booking.trip row = k \<and> passenger row = u
         \<and> database_after db (CreateBookingView clean db request k instance)
             = db\<lparr>Booking_objects := Booking_objects db @ [row]\<rparr>)"
proof (cases "user request")
  case None
  then show ?thesis
    by (simp add: CreateBookingView_def LoginRequiredMixin_def database_after_def)
next
  case (Some u)
  show ?thesis
  proof (cases "http_method request = Post \<and> clean instance")
    case False
    then show ?thesis
      using Some
      by (cases "http_method request")
        (simp_all add: CreateBookingView_def LoginRequiredMixin_def database_after_def)
  next
    case True
    then have view: "CreateBookingView clean db request k instance
        = CreateBookingView_form_valid db u k instance"
      using Some by (simp add: CreateBookingView_def LoginRequiredMixin_def)
    show ?thesis
    proof (cases "get_object_or_404 (Trip_objects db) k")
      case (Inl e)
      then show ?thesis
        by (simp add: view CreateBookingView_form_valid_def database_after_def)
    next
      case (Inr t)
      then have pk: "Trip.pk t = k"
        using get_object_or_404_found by blast
      show ?thesis
      proof (cases "Trip.owner t = u \<or> bookings_of db k u \<noteq> []")
        case True
        then show ?thesis
          by (auto simp: view CreateBookingView_form_valid_def database_after_def Inr pk
                bookings_of_def)
      next
        case False
        let ?row = "instance\<lparr>Booking.pk := next_pk (map Booking.pk (Booking_objects db)),
                             passenger := u, trip := k\<rparr>"
        have "database_after db (CreateBookingView clean db request k instance)
                = db\<lparr>Booking_objects := Booking_objects db @ [?row]\<rparr>"
          using False
          by (simp add: view CreateBookingView_form_valid_def database_after_def Inr pk
                bookings_of_def)
        then have "\<exists>u row. user request = Some u \<and> bookings_of db k u = []
            \<and> Booking.trip row = k \<and> passenger row = u
            \<and> database_after db (CreateBookingView clean db request k instance)
                = db\<lparr>Booking_objects := Booking_objects db @ [row]\<rparr>"
          using Some False by (intro exI [of _ u] exI [of _ ?row]) simp
        then show ?thesis ..
      qed
    qed
  qed
qed

lemma bookings_of_append:
  "bookings_of (db\<lparr>Booking_objects := Booking_objects db @ [row]\<rparr>) k u =
     bookings_of db k u @ (if Booking.trip row = k \<and> passenger row = u then [row] else [])"
  by (simp add: bookings_of_def)

lemma booking_request_keeps_at_most_one:
  assumes "length (bookings_of db T U) \<le> 1"
  shows "length (bookings_of
           (database_after db (CreateBookingView clean db request k instance)) T U) \<le> 1"
  using booking_request_effect [of db clean request k "instance"] assms
  by (auto simp: bookings_of_append)

lemma booking_attempts_keep_at_most_one:
  assumes "length (bookings_of db T U) \<le> 1"
  shows "length (bookings_of (booking_attempts clean U T db attempts) T U) \<le> 1"
  using assms
proof (induction attempts arbitrary: db)
  case Nil
  then show ?case by simp
next
  case (Cons a attempts)
  obtain m inst where a: "a = (m, inst)" by (cases a)
  show ?case
    unfolding a booking_attempts.simps
    by (rule Cons.IH) (rule booking_request_keeps_at_most_one [OF Cons.prems])
qed

lemma booking_form_valid_reached:
  assumes "user request = Some u" "http_method request = Post" "clean instance"
  shows "CreateBookingView clean db request k instance
           = CreateBookingView_form_valid db u k instance"
  using assms by (simp add: CreateBookingView_def LoginRequiredMixin_def)

lemma demo_missing_trip: "get_object_or_404 (Trip_objects demo_db) 99 = Inl Http404"
  by (simp add: get_object_or_404_def demo_db_def demo_trip_def demo_closed_def
        demo_departed_def)

lemma demo_third_trip:
  "get_object_or_404 (Trip_objects demo_db) 3
     = Inr (demo_trip 3 2 2 ''Recife'' ''Natal'' ((2024, 5, 2), 0) ''OPEN'')"
  by (simp add: get_object_or_404_def demo_db_def demo_trip_def)

lemma demo_booking_clean: "demo_clean demo_booking"
  by (simp add: demo_clean_def demo_booking_def)

text \<open>
  C1, as stated, answers every booking request of a user who already has a booking on the
  trip with the warning and the redirect. The checks are in \<^verbatim>\<open>form_valid\<close>, which a form that
  does not validate never reaches: user 5, who has booked trip 3, submits such a form and
  is shown the form page, with no message.
\<close>

theorem booked_user_invalid_form_counterexample:
  "bookings_of demo_booked_db 3 5 \<noteq> []
   \<and> CreateBookingView demo_clean demo_booked_db \<lparr>user = Some 5, http_method = Post\<rparr> 3
         demo_invalid_booking
       = Inr \<lparr>response = Render ''create_booking.html'', messages = [],
              database = demo_booked_db\<rparr>"
  by (simp add: bookings_of_def demo_booked_db_def demo_booking_def CreateBookingView_def
        LoginRequiredMixin_def demo_clean_def demo_invalid_booking_def)

text \<open>
  C1, amended. Let the database hold at most one booking of the user \<open>U\<close> on the trip \<open>T\<close>.
  After any sequence of booking requests by \<open>U\<close> on \<open>T\<close>, each handled to its end before the
  next, it still holds at most one. A request creates a row only if there was none: if
  there was one, the database is left as it was. If there was one and the request gets as
  far as the check (a submitted form that validates, an existing trip, a user who is not
  its owner), the answer is the warning and the redirect to the trip; if there was none,
  the same request creates the one row.
\<close>

theorem at_most_one_booking:
  assumes "length (bookings_of db T U) \<le> 1"
  shows "length (bookings_of (booking_attempts clean U T db attempts) T U) \<le> 1
       \<and> (bookings_of db T U = []
          \<or> database_after db
               (CreateBookingView clean db \<lparr>user = Some U, http_method = m\<rparr> T instance) = db)
       \<and> (clean instance \<and> get_object_or_404 (Trip_objects db) T = Inr t \<and> Trip.owner t \<noteq> U
            \<longrightarrow> (if bookings_of db T U \<noteq> []
                 then CreateBookingView clean db \<lparr>user = Some U, http_method = Post\<rparr> T instance
                        = Inr \<lparr>response = Redirect (trip_detail T),
                               messages = [(WARNING, already_interested)], database = db\<rparr>
                 else length (bookings_of (database_after db
                        (CreateBookingView clean db \<lparr>user = Some U, http_method = Post\<rparr>
                           T instance)) T U) = 1))"
proof -
  have 1: "length (bookings_of (booking_attempts clean U T db attempts) T U) \<le> 1"
    using assms by (rule booking_attempts_keep_at_most_one)
  have 2: "bookings_of db T U = []
          \<or> database_after db
               (CreateBookingView clean db \<lparr>user = Some U, http_method = m\<rparr> T instance) = db"
    using booking_request_effect [of db clean "\<lparr>user = Some U, http_method = m\<rparr>" T "instance"]
    by auto
  have 3: "if bookings_of db T U \<noteq> []
           then CreateBookingView clean db \<lparr>user = Some U, http_method = Post\<rparr> T instance
                  = Inr \<lparr>response = Redirect (trip_detail T),
                         messages = [(WARNING, already_interested)], database = db\<rparr>
           else length (bookings_of (database_after db
                  (CreateBookingView clean db \<lparr>user = Some U, http_method = Post\<rparr>
                     T instance)) T U) = 1"
    if "clean instance" and t: "get_object_or_404 (Trip_objects db) T = Inr t"
      and "Trip.owner t \<noteq> U"
  proof -
    have pk: "Trip.pk t = T"
      using t get_object_or_404_found by blast
    have "CreateBookingView clean db \<lparr>user = Some U, http_method = Post\<rparr> T instance
            = CreateBookingView_form_valid db U T instance"
      using that(1) by (simp add: booking_form_valid_reached)
    then show ?thesis
      using that(3)
      by (simp add: CreateBookingView_form_valid_def t pk bookings_of_def database_after_def)
  qed
  from 1 2 3 show ?thesis by blast
qed

theorem at_most_one_booking_witness:
  "length (bookings_of demo_db 3 5) \<le> 1
   \<and> length (bookings_of
        (booking_attempts demo_clean 5 3 demo_db [(Post, demo_booking), (Post, demo_booking)])
        3 5) \<le> 1
   \<and> length (bookings_of (database_after demo_db
        (CreateBookingView demo_clean demo_db \<lparr>user = Some 5, http_method = Post\<rparr>
           3 demo_booking)) 3 5) = 1"
proof -
  have 0: "length (bookings_of demo_db 3 5) \<le> 1"
    by (simp add: bookings_of_def demo_db_def)
  have none: "bookings_of demo_db 3 5 = []"
    by (simp add: bookings_of_def demo_db_def)
  have other: "Trip.owner (demo_trip 3 2 2 ''Recife'' ''Natal'' ((2024, 5, 2), 0) ''OPEN'') \<noteq> 5"
    by (simp add: demo_trip_def)
  from at_most_one_booking [OF 0, of demo_clean "[(Post, demo_booking), (Post, demo_booking)]"
      Post demo_booking "demo_trip 3 2 2 ''Recife'' ''Natal'' ((2024, 5, 2), 0) ''OPEN''"]
  show ?thesis
    using 0 none other demo_booking_clean demo_third_trip by simp
qed

text \<open>
  C3, as stated, answers every booking request of the owner with the error about one's own
  trip and the redirect. The owner test is in \<^verbatim>\<open>form_valid\<close>, which a form that does not
  validate never reaches: user 2, the owner of trip 3, submits such a form and is shown
  the form page, with no message.
\<close>

theorem owner_invalid_form_counterexample:
  "get_object_or_404 (Trip_objects demo_db) 3
     = Inr (demo_trip 3 2 2 ''Recife'' ''Natal'' ((2024, 5, 2), 0) ''OPEN'')
   \<and> Trip.owner (demo_trip 3 2 2 ''Recife'' ''Natal'' ((2024, 5, 2), 0) ''OPEN'') = 2
   \<and> CreateBookingView demo_clean demo_db \<lparr>user = Some 2, http_method = Post\<rparr> 3
         demo_invalid_booking
       = Inr \<lparr>response = Render ''create_booking.html'', messages = [],
              database = demo_db\<rparr>"
  by (simp add: demo_third_trip CreateBookingView_def LoginRequiredMixin_def demo_clean_def
        demo_invalid_booking_def demo_booking_def)
    (simp add: demo_trip_def)

text \<open>
  C3, amended. Let \<open>U\<close> be logged in and be the owner of the trip. A booking submitted by
  \<open>U\<close> on this trip with a form that validates is answered with the error message about
  one's own trip and the redirect to the trip's page; and no request of \<open>U\<close> to the booking
  view of this trip changes the database, so no booking is created.
\<close>

theorem owner_cannot_book_own_trip:
  assumes "get_object_or_404 (Trip_objects db) trip_pk = Inr T"
    and "Trip.owner T = U"
    and "user request = Some U"
  shows "(http_method request = Post \<and> clean instance \<longrightarrow>
            CreateBookingView clean db request trip_pk instance
              = Inr \<lparr>response = Redirect (trip_detail trip_pk),
                     messages = [(ERROR, own_trip)], database = db\<rparr>)
       \<and> database_after db (CreateBookingView clean db request trip_pk instance) = db"
proof -
  have pk: "Trip.pk T = trip_pk"
    using assms(1) get_object_or_404_found by blast
  have 1: "CreateBookingView clean db request trip_pk instance
              = Inr \<lparr>response = Redirect (trip_detail trip_pk),
                     messages = [(ERROR, own_trip)], database = db\<rparr>"
    if "http_method request = Post" "clean instance"
    using that assms
    by (simp add: booking_form_valid_reached CreateBookingView_form_valid_def pk)
  have 2: "database_after db (CreateBookingView clean db request trip_pk instance) = db"
  proof (cases "http_method request = Post \<and> clean instance")
    case True
    then show ?thesis using 1 by (simp add: database_after_def)
  next
    case False
    then show ?thesis
      using assms(3)
      by (cases "http_method request")
        (simp_all add: CreateBookingView_def LoginRequiredMixin_def database_after_def)
  qed
  from 1 2 show ?thesis by blast
qed

theorem owner_cannot_book_own_trip_witness:
  "CreateBookingView demo_clean demo_db \<lparr>user = Some 2, http_method = Post\<rparr> 3 demo_booking
     = Inr \<lparr>response = Redirect (trip_detail 3), messages = [(ERROR, own_trip)],
            database = demo_db\<rparr>"
  using owner_cannot_book_own_trip [OF demo_third_trip, of 2
      "\<lparr>user = Some 2, http_method = Post\<rparr>" demo_clean demo_booking]
  by (simp add: demo_trip_def demo_booking_clean)

text \<open>
  C4, as stated, answers a request for a trip that does not exist with \<^verbatim>\<open>Http404\<close> whether
  or not the requester is logged in. The anonymous request is redirected to the login
  page.
\<close>

theorem booking_anonymous_missing_trip_counterexample:
  "get_object_or_404 (Trip_objects demo_db) 99 = Inl Http404
   \<and> CreateBookingView demo_clean demo_db \<lparr>user = None, http_method = Post\<rparr> 99 demo_booking
       = Inr \<lparr>response = Redirect login, messages = [], database = demo_db\<rparr>"
  by (simp add: demo_missing_trip CreateBookingView_def LoginRequiredMixin_def)

text \<open>
  C4, amended. The booking view checks in this order, and the first check that fails
  decides the answer: (b) the requester is logged in, else a redirect to the login page;
  the request is a submitted form that validates, else the form page; (a) the trip exists,
  else \<^verbatim>\<open>Http404\<close>; (c) the requester is not the owner of the trip, else the error message
  and a redirect to the trip; (d) the requester has no booking on the trip, else the
  warning and a redirect to the trip. When all pass, the booking is stored for the
  requester and the trip, with the success message and a redirect to the trip.
\<close>

theorem booking_checks_in_order:
  fixes clean db request trip_pk "instance"
  defines "R \<equiv> CreateBookingView clean db request trip_pk instance"
  shows "(user request = None \<longrightarrow>
            R = Inr \<lparr>response = Redirect login, messages = [], database = db\<rparr>)
       \<and> (\<forall>u. user request = Some u \<longrightarrow>
            (if http_method request = Get \<or> \<not> clean instance
             then R = Inr \<lparr>response = Render ''create_booking.html'', messages = [],
                           database = db\<rparr>
             else (case get_object_or_404 (Trip_objects db) trip_pk of
                     Inl e \<Rightarrow> R = Inl Http404
                   | Inr t \<Rightarrow>
                       if Trip.owner t = u
                       then R = Inr \<lparr>response = Redirect (trip_detail trip_pk),
                                     messages = [(ERROR, own_trip)], database = db\<rparr>
                       else if bookings_of db trip_pk u \<noteq> []
                       then R = Inr \<lparr>response = Redirect (trip_detail trip_pk),
                                     messages = [(WARNING, already_interested)],
                                     database = db\<rparr>
                       else R = Inr \<lparr>response = Redirect (trip_detail trip_pk),
                                     messages = [(SUCCESS, interest_registered)],
                                     database = db\<lparr>Booking_objects := Booking_objects db @
                                       [instance\<lparr>Booking.pk :=
                                                   next_pk (map Booking.pk (Booking_objects db)),
                                                 passenger := u, trip := trip_pk\<rparr>]\<rparr>\<rparr>)))"
proof -
  have 1: "R = Inr \<lparr>response = Redirect login, messages = [], database = db\<rparr>"
    if "user request = None"
    using that by (simp add: R_def CreateBookingView_def LoginRequiredMixin_def)
  have 2: "R = Inr \<lparr>response = Render ''create_booking.html'', messages = [], database = db\<rparr>"
    if "user request = Some u" "http_method request = Get \<or> \<not> clean instance" for u
    using that
    by (cases "http_method request")
      (auto simp: R_def CreateBookingView_def LoginRequiredMixin_def)
  have 3: "case get_object_or_404 (Trip_objects db) trip_pk of
             Inl e \<Rightarrow> R = Inl Http404
           | Inr t \<Rightarrow>
               if Trip.owner t = u
               then R = Inr \<lparr>response = Redirect (trip_detail trip_pk),
                             messages = [(ERROR, own_trip)], database = db\<rparr>
               else if bookings_of db trip_pk u \<noteq> []
               then R = Inr \<lparr>response = Redirect (trip_detail trip_pk),
                             messages = [(WARNING, already_interested)], database = db\<rparr>
               else R = Inr \<lparr>response = Redirect (trip_detail trip_pk),
                             messages = [(SUCCESS, interest_registered)],
                             database = db\<lparr>Booking_objects := Booking_objects db @
                               [instance\<lparr>Booking.pk :=
                                           next_pk (map Booking.pk (Booking_objects db)),
                                         passenger := u, trip := trip_pk\<rparr>]\<rparr>\<rparr>"
    if u: "user request = Some u" and ok: "\<not> (http_method request = Get \<or> \<not> clean instance)"
    for u
  proof -
    have post: "http_method request = Post"
      using ok by (cases "http_method request") simp_all
    have view: "R = CreateBookingView_form_valid db u trip_pk instance"
      unfolding R_def using u post ok by (simp add: booking_form_valid_reached)
    show ?thesis
    proof (cases "get_object_or_404 (Trip_objects db) trip_pk")
      case (Inl e)
      have "e = Http404"
        using Inl by (simp add: get_object_or_404_def split: option.splits)
      then show ?thesis
        by (simp add: view CreateBookingView_form_valid_def Inl)
    next
      case (Inr t)
      then have "Trip.pk t = trip_pk"
        using get_object_or_404_found by blast
      then show ?thesis
        by (simp add: view CreateBookingView_form_valid_def Inr bookings_of_def)
    qed
  qed
  show ?thesis
  proof (intro conjI allI impI)
    assume "user request = None"
    then show "R = Inr \<lparr>response = Redirect login, messages = [], database = db\<rparr>"
      by (rule 1)
  next
    fix u
    assume u: "user request = Some u"
    show "if http_method request = Get \<or> \<not> clean instance
          then R = Inr \<lparr>response = Render ''create_booking.html'', messages = [],
                        database = db\<rparr>
          else (case get_object_or_404 (Trip_objects db) trip_pk of
                  Inl e \<Rightarrow> R = Inl Http404
                | Inr t \<Rightarrow>
                    if Trip.owner t = u
                    then R = Inr \<lparr>response = Redirect (trip_detail trip_pk),
                                  messages = [(ERROR, own_trip)], database = db\<rparr>
                    else if bookings_of db trip_pk u \<noteq> []
                    then R = Inr \<lparr>response = Redirect (trip_detail trip_pk),
                                  messages = [(WARNING, already_interested)],
                                  database = db\<rparr>
                    else R = Inr \<lparr>response = Redirect (trip_detail trip_pk),
                                  messages = [(SUCCESS, interest_registered)],
                                  database = db\<lparr>Booking_objects := Booking_objects db @
                                    [instance\<lparr>Booking.pk :=
                                                next_pk (map Booking.pk (Booking_objects db)),
                                              passenger := u, trip := trip_pk\<rparr>]\<rparr>\<rparr>)"
    proof (cases "http_method request = Get \<or> \<not> clean instance")
      case True
      show ?thesis unfolding if_P [OF True] by (rule 2 [OF u True])
    next
      case False
      show ?thesis unfolding if_not_P [OF False] by (rule 3 [OF u False])
    qed
  qed
qed

theorem booking_checks_in_order_witness:
  "CreateBookingView demo_clean demo_db \<lparr>user = None, http_method = Post\<rparr> 99 demo_booking
     = Inr \<lparr>response = Redirect login, messages = [], database = demo_db\<rparr>
   \<and> CreateBookingView demo_clean demo_db \<lparr>user = Some 3, http_method = Post\<rparr> 99 demo_booking
     = Inl Http404"
  using booking_checks_in_order [of "\<lparr>user = None, http_method = Post\<rparr>"
      demo_clean demo_db 99 demo_booking]
    booking_checks_in_order [of "\<lparr>user = Some 3, http_method = Post\<rparr>"
      demo_clean demo_db 99 demo_booking]
  by (simp add: demo_missing_trip demo_booking_clean)

section \<open>Owner views\<close>

lemma get_object_or_404_after_update:
  assumes "get_object_or_404 objects k = Inr object"
    and "Trip.pk object' = k"
  shows "get_object_or_404 (map (\<lambda>t. if Trip.pk t = Trip.pk object then object' else t) objects) k
           = Inr object'"
proof -
  have pk: "Trip.pk object = k"
    using assms(1) get_object_or_404_found by blast
  have "find (\<lambda>t. Trip.pk t = k) (map (\<lambda>t. if Trip.pk t = k then object' else t) objects)
          = Some object'"
    if "find (\<lambda>t. Trip.pk t = k) objects = Some object" for objects
    using that assms(2)
    by (induction objects) (auto split: if_splits)
  moreover have "find (\<lambda>t. Trip.pk t = k) objects = Some object"
    using assms(1) by (simp add: get_object_or_404_def split: option.splits)
  ultimately show ?thesis
    by (simp add: get_object_or_404_def pk)
qed

lemma update_reaches_form_valid:
  assumes "get_object_or_404 (Trip_objects db) k = Inr T"
    and "Trip.owner T = U"
    and "user request = Some U"
    and "http_method request = Post"
    and "is_valid clean (Aircraft_objects db) data"
  shows "TripUpdateView clean db request k data = TripUpdateView_form_valid db T data"
  using assms
  by (simp add: TripUpdateView_def LoginRequiredMixin_def UserPassesTestMixin_def
        TripUpdateView_test_func_def)

lemma demo_fourth_trip:
  "get_object_or_404 (Trip_objects demo_db) 4
     = Inr (demo_trip 4 2 2 ''Porto de NATAL'' ''Rio'' ((2024, 5, 1), 28800) ''OPEN'')"
  by (simp add: get_object_or_404_def demo_db_def demo_trip_def)

text \<open>
  C2. Let \<open>U\<close> be logged in, and let the trip exist and belong to someone else. The update
  view and the delete view both raise \<^verbatim>\<open>PermissionDenied\<close> for every request of \<open>U\<close> on the
  trip, whatever its method and its form, and the database is as it was: the trip is
  still stored, with every field unchanged.
\<close>

theorem non_owner_cannot_update_or_delete:
  assumes "get_object_or_404 (Trip_objects db) k = Inr T"
    and "user request = Some U"
    and "U \<noteq> Trip.owner T"
  shows "TripUpdateView clean db request k data = Inl PermissionDenied
       \<and> TripDeleteView on_delete db request k = Inl PermissionDenied
       \<and> database_after db (TripUpdateView clean db request k data) = db
       \<and> database_after db (TripDeleteView on_delete db request k) = db
       \<and> get_object_or_404
           (Trip_objects (database_after db (TripUpdateView clean db request k data))) k = Inr T
       \<and> get_object_or_404
           (Trip_objects (database_after db (TripDeleteView on_delete db request k))) k = Inr T"
proof -
  have update: "TripUpdateView clean db request k data = Inl PermissionDenied"
    using assms
    by (simp add: TripUpdateView_def LoginRequiredMixin_def UserPassesTestMixin_def
          TripUpdateView_test_func_def)
  have delete: "TripDeleteView on_delete db request k = Inl PermissionDenied"
    using assms
    by (simp add: TripDeleteView_def LoginRequiredMixin_def UserPassesTestMixin_def
          TripDeleteView_test_func_def)
  show ?thesis
    by (simp add: update delete database_after_def assms(1))
qed

theorem non_owner_cannot_update_or_delete_witness:
  "TripUpdateView demo_trip_clean demo_db \<lparr>user = Some 5, http_method = Post\<rparr> 3 demo_closed
     = Inl PermissionDenied
   \<and> TripDeleteView CASCADE demo_db \<lparr>user = Some 5, http_method = Post\<rparr> 3
     = Inl PermissionDenied"
proof -
  have "5 \<noteq> Trip.owner (demo_trip 3 2 2 ''Recife'' ''Natal'' ((2024, 5, 2), 0) ''OPEN'')"
    by (simp add: demo_trip_def)
  from non_owner_cannot_update_or_delete [OF demo_third_trip _ this,
      of "\<lparr>user = Some 5, http_method = Post\<rparr>" demo_trip_clean demo_closed CASCADE]
  show ?thesis by simp
qed

lemma owned_aircraft:
  "aircraft t \<in> set (map Aircraft.pk (TripCreateView_get_form db U)) \<longleftrightarrow>
     (\<exists>a \<in> set (Aircraft_objects db). Aircraft.pk a = aircraft t \<and> Aircraft.owner a = U)"
  by (force simp: TripCreateView_get_form_def)

lemma create_trip_effect:
  assumes "user request = Some U"
  shows "TripCreateView clean db request instance =
           (if http_method request = Post \<and> is_valid clean (TripCreateView_get_form db U) instance
            then TripCreateView_form_valid db U instance
            else Inr \<lparr>response = Render ''trip_form.html'', messages = [], database = db\<rparr>)"
  using assms
  by (cases "http_method request") (simp_all add: TripCreateView_def LoginRequiredMixin_def)

text \<open>
  C8. Let \<open>U\<close> be logged in. The aircraft the create form offers are the aircraft of \<open>U\<close>.
  A submitted form that validates, which requires its aircraft to be one of those, stores
  the trip with \<open>U\<close> as its owner, whatever owner the submitted data carried, queues the
  success message and redirects to the dashboard. Whatever the request, the trips stored
  afterwards are the trips stored before, or those and one new trip, owned by \<open>U\<close> and
  with an aircraft of \<open>U\<close>; and a form whose aircraft is not one of \<open>U\<close> stores nothing.
\<close>

theorem create_trip_owner_and_aircraft:
  fixes clean db request "instance" U
  assumes "user request = Some U"
  defines "R \<equiv> TripCreateView clean db request instance"
  shows "set (TripCreateView_get_form db U)
           = {a \<in> set (Aircraft_objects db). Aircraft.owner a = U}
       \<and> (http_method request = Post \<and> is_valid clean (TripCreateView_get_form db U) instance
            \<longrightarrow> (\<exists>a \<in> set (Aircraft_objects db).
                    Aircraft.pk a = aircraft instance \<and> Aircraft.owner a = U)
               \<and> R = Inr \<lparr>response = Redirect dashboard,
                           messages = [(SUCCESS, trip_announced)],
                           database = db\<lparr>Trip_objects := Trip_objects db @
                             [instance\<lparr>Trip.owner := U,
                                       Trip.pk := next_pk (map Trip.pk (Trip_objects db))\<rparr>]\<rparr>\<rparr>)
       \<and> (Trip_objects (database_after db R) = Trip_objects db
          \<or> (\<exists>t. Trip_objects (database_after db R) = Trip_objects db @ [t]
                 \<and> Trip.owner t = U
                 \<and> (\<exists>a \<in> set (Aircraft_objects db).
                       Aircraft.pk a = aircraft t \<and> Aircraft.owner a = U)))
       \<and> ((\<forall>a \<in> set (Aircraft_objects db).
              Aircraft.pk a = aircraft instance \<longrightarrow> Aircraft.owner a \<noteq> U)
            \<longrightarrow> database_after db R = db)"
proof -
  let ?valid = "http_method request = Post
                  \<and> is_valid clean (TripCreateView_get_form db U) instance"
  let ?t = "instance\<lparr>Trip.owner := U, Trip.pk := next_pk (map Trip.pk (Trip_objects db))\<rparr>"
  have R: "R = (if ?valid then TripCreateView_form_valid db U instance
                else Inr \<lparr>response = Render ''trip_form.html'', messages = [], database = db\<rparr>)"
    unfolding R_def using assms(1) by (rule create_trip_effect)
  have 1: "set (TripCreateView_get_form db U)
             = {a \<in> set (Aircraft_objects db). Aircraft.owner a = U}"
    by (auto simp: TripCreateView_get_form_def)
  have own: "\<exists>a \<in> set (Aircraft_objects db).
               Aircraft.pk a = aircraft instance \<and> Aircraft.owner a = U"
    if ?valid
    using that owned_aircraft [of "instance" db U] by (simp add: is_valid_def)
  have stored: "R = Inr \<lparr>response = Redirect dashboard,
                         messages = [(SUCCESS, trip_announced)],
                         database = db\<lparr>Trip_objects := Trip_objects db @ [?t]\<rparr>\<rparr>"
    if ?valid
    using that by (simp add: R TripCreateView_form_valid_def)
  have 2: "?valid \<longrightarrow>
             (\<exists>a \<in> set (Aircraft_objects db).
                 Aircraft.pk a = aircraft instance \<and> Aircraft.owner a = U)
             \<and> R = Inr \<lparr>response = Redirect dashboard,
                         messages = [(SUCCESS, trip_announced)],
                         database = db\<lparr>Trip_objects := Trip_objects db @ [?t]\<rparr>\<rparr>"
    using own stored by (intro impI conjI)
  have 3: "Trip_objects (database_after db R) = Trip_objects db
          \<or> (\<exists>t. Trip_objects (database_after db R) = Trip_objects db @ [t]
                 \<and> Trip.owner t = U
                 \<and> (\<exists>a \<in> set (Aircraft_objects db).
                       Aircraft.pk a = aircraft t \<and> Aircraft.owner a = U))"
  proof (cases ?valid)
    case True
    have "Trip_objects (database_after db R) = Trip_objects db @ [?t]"
      by (simp add: stored [OF True] database_after_def)
    moreover have "Trip.owner ?t = U" by simp
    moreover have "\<exists>a \<in> set (Aircraft_objects db).
                     Aircraft.pk a = aircraft ?t \<and> Aircraft.owner a = U"
      using own [OF True] by simp
    ultimately show ?thesis by blast
  next
    case False
    have "R = Inr \<lparr>response = Render ''trip_form.html'', messages = [], database = db\<rparr>"
      unfolding R using False by (rule if_not_P)
    then have "database_after db R = db"
      by (simp add: database_after_def)
    then show ?thesis by simp
  qed
  have 4: "database_after db R = db"
    if "\<forall>a \<in> set (Aircraft_objects db).
          Aircraft.pk a = aircraft instance \<longrightarrow> Aircraft.owner a \<noteq> U"
  proof -
    have "\<not> ?valid" using own that by blast
    then have "R = Inr \<lparr>response = Render ''trip_form.html'', messages = [], database = db\<rparr>"
      unfolding R by (rule if_not_P)
    then show ?thesis by (simp add: database_after_def)
  qed
  have 5: "(\<forall>a \<in> set (Aircraft_objects db).
              Aircraft.pk a = aircraft instance \<longrightarrow> Aircraft.owner a \<noteq> U)
            \<longrightarrow> database_after db R = db"
    using 4 by (rule impI)
  show ?thesis
    by (rule conjI [OF 1 conjI [OF 2 conjI [OF 3 5]]])
qed

theorem create_trip_owner_and_aircraft_witness:
  "TripCreateView demo_trip_clean demo_db \<lparr>user = Some 2, http_method = Post\<rparr> demo_new_trip
     = Inr \<lparr>response = Redirect dashboard, messages = [(SUCCESS, trip_announced)],
            database = demo_db\<lparr>Trip_objects := Trip_objects demo_db @
              [demo_new_trip\<lparr>Trip.owner := 2,
                             Trip.pk := next_pk (map Trip.pk (Trip_objects demo_db))\<rparr>]\<rparr>\<rparr>
   \<and> database_after demo_db
        (TripCreateView demo_trip_clean demo_db \<lparr>user = Some 2, http_method = Post\<rparr>
           demo_foreign_trip) = demo_db"
proof -
  have valid: "is_valid demo_trip_clean (TripCreateView_get_form demo_db 2) demo_new_trip"
    by (simp add: is_valid_def TripCreateView_get_form_def demo_db_def demo_new_trip_def
          demo_trip_def demo_trip_clean_def)
  have foreign: "\<forall>a \<in> set (Aircraft_objects demo_db).
                   Aircraft.pk a = aircraft demo_foreign_trip \<longrightarrow> Aircraft.owner a \<noteq> 2"
    by (simp add: demo_db_def demo_foreign_trip_def demo_trip_def)
  have 1: "TripCreateView demo_trip_clean demo_db \<lparr>user = Some 2, http_method = Post\<rparr>
             demo_new_trip
     = Inr \<lparr>response = Redirect dashboard, messages = [(SUCCESS, trip_announced)],
            database = demo_db\<lparr>Trip_objects := Trip_objects demo_db @
              [demo_new_trip\<lparr>Trip.owner := 2,
                             Trip.pk := next_pk (map Trip.pk (Trip_objects demo_db))\<rparr>]\<rparr>\<rparr>"
    using create_trip_owner_and_aircraft [of "\<lparr>user = Some 2, http_method = Post\<rparr>" 2
        demo_db demo_trip_clean demo_new_trip] valid
    by simp
  have 2: "database_after demo_db
        (TripCreateView demo_trip_clean demo_db \<lparr>user = Some 2, http_method = Post\<rparr>
           demo_foreign_trip) = demo_db"
    using create_trip_owner_and_aircraft [of "\<lparr>user = Some 2, http_method = Post\<rparr>" 2
        demo_db demo_trip_clean demo_foreign_trip] foreign
    by simp
  from 1 2 show ?thesis by (rule conjI)
qed

text \<open>
  C10. The update form takes any stored aircraft. Let \<open>U\<close> be logged in and own the trip,
  and let the submitted form validate apart from the aircraft, which is a stored aircraft
  of another user. The update view stores that aircraft in the trip of \<open>U\<close> and redirects to
  the dashboard. The create view, given the same form by the same user, stores nothing and
  shows the form again.
\<close>

theorem update_accepts_aircraft_of_another_user:
  assumes "get_object_or_404 (Trip_objects db) k = Inr T"
    and "Trip.owner T = U"
    and "user request = Some U"
    and "http_method request = Post"
    and "a \<in> set (Aircraft_objects db)"
    and "Aircraft.owner a \<noteq> U"
    and "aircraft data = Aircraft.pk a"
    and "clean data"
    and "\<forall>b \<in> set (Aircraft_objects db). Aircraft.pk b = Aircraft.pk a \<longrightarrow> b = a"
  shows "(\<exists>out T'. TripUpdateView clean db request k data = Inr out
            \<and> response out = Redirect dashboard
            \<and> get_object_or_404 (Trip_objects (database out)) k = Inr T'
            \<and> aircraft T' = Aircraft.pk a \<and> Trip.owner T' = U)
       \<and> TripCreateView clean db request data
            = Inr \<lparr>response = Render ''trip_form.html'', messages = [], database = db\<rparr>"
proof -
  let ?T' = "T\<lparr>aircraft := aircraft data, origin := origin data,
               destination := destination data, departure_time := departure_time data,
               arrival_time := arrival_time data, available_seats := available_seats data,
               description := description data, status := status data\<rparr>"
  let ?db' = "db\<lparr>Trip_objects :=
                 map (\<lambda>t. if Trip.pk t = Trip.pk T then ?T' else t) (Trip_objects db)\<rparr>"
  let ?out = "\<lparr>response = Redirect dashboard, messages = [(SUCCESS, trip_updated)],
               database = ?db'\<rparr>"
  have pk: "Trip.pk T = k"
    using assms(1) get_object_or_404_found by blast
  have valid: "is_valid clean (Aircraft_objects db) data"
    using assms(5,7,8) by (simp add: is_valid_def)
  have "TripUpdateView clean db request k data = TripUpdateView_form_valid db T data"
    using assms(1-4) valid by (rule update_reaches_form_valid)
  then have out: "TripUpdateView clean db request k data = Inr ?out"
    by (simp add: TripUpdateView_form_valid_def)
  have "Trip.pk ?T' = k"
    using pk by simp
  with assms(1) have stored: "get_object_or_404 (Trip_objects (database ?out)) k = Inr ?T'"
    using get_object_or_404_after_update [of "Trip_objects db" k T ?T'] by simp
  have "\<exists>out T'. TripUpdateView clean db request k data = Inr out
            \<and> response out = Redirect dashboard
            \<and> get_object_or_404 (Trip_objects (database out)) k = Inr T'
            \<and> aircraft T' = Aircraft.pk a \<and> Trip.owner T' = U"
    using out stored assms(2,7)
    by (intro exI [of _ ?out] exI [of _ ?T']) simp
  moreover have "\<not> is_valid clean (TripCreateView_get_form db U) data"
    using assms(6,7,9) owned_aircraft [of data db U] by (auto simp: is_valid_def)
  then have "TripCreateView clean db request data
            = Inr \<lparr>response = Render ''trip_form.html'', messages = [], database = db\<rparr>"
    using assms(3) by (simp add: create_trip_effect)
  ultimately show ?thesis by (rule conjI)
qed

theorem update_accepts_aircraft_of_another_user_witness:
  "Aircraft.owner demo_foreign_aircraft \<noteq> 2
   \<and> (\<exists>out T'. TripUpdateView demo_trip_clean demo_db \<lparr>user = Some 2, http_method = Post\<rparr> 4
                  demo_foreign_trip = Inr out
         \<and> response out = Redirect dashboard
         \<and> get_object_or_404 (Trip_objects (database out)) 4 = Inr T'
         \<and> aircraft T' = Aircraft.pk demo_foreign_aircraft \<and> Trip.owner T' = 2)"
proof -
  have 1: "Trip.owner (demo_trip 4 2 2 ''Porto de NATAL'' ''Rio'' ((2024, 5, 1), 28800) ''OPEN'')
             = 2"
    by (simp add: demo_trip_def)
  have 2: "user \<lparr>user = Some 2, http_method = Post\<rparr> = Some 2"
    by simp
  have 3: "http_method \<lparr>user = Some 2, http_method = Post\<rparr> = Post"
    by simp
  have 4: "demo_foreign_aircraft \<in> set (Aircraft_objects demo_db)"
    by (simp add: demo_db_def demo_foreign_aircraft_def)
  have 5: "Aircraft.owner demo_foreign_aircraft \<noteq> 2"
    by (simp add: demo_foreign_aircraft_def)
  have 6: "aircraft demo_foreign_trip = Aircraft.pk demo_foreign_aircraft"
    by (simp add: demo_foreign_trip_def demo_trip_def demo_foreign_aircraft_def)
  have 7: "demo_trip_clean demo_foreign_trip"
    by (simp add: demo_trip_clean_def demo_foreign_trip_def demo_trip_def)
  have 8: "\<forall>b \<in> set (Aircraft_objects demo_db).
             Aircraft.pk b = Aircraft.pk demo_foreign_aircraft \<longrightarrow> b = demo_foreign_aircraft"
    by (simp add: demo_db_def demo_foreign_aircraft_def)
  from update_accepts_aircraft_of_another_user
      [where clean = demo_trip_clean and data = demo_foreign_trip
         and request = "\<lparr>user = Some 2, http_method = Post\<rparr>",
       OF demo_fourth_trip 1 2 3 4 5 6 7 8] 5
  show ?thesis by (intro conjI) (assumption, erule conjunct1)
qed

end
